theory Spec2Isabelle
  imports Complex_Main
begin

section \<open>JavaScript strings\<close>

text \<open>
  A JavaScript string is a finite sequence of UTF-16 code units. A code unit is modelled
  by its number; the literals of the source are ASCII and are written with \<open>str\<close>.
\<close>

type_synonym code_unit = nat
type_synonym jsstring = "code_unit list"

definition str :: "string \<Rightarrow> jsstring" where
  "str s = map of_char s"

definition nl :: code_unit where
  "nl = 10"

definition comma :: code_unit where
  "comma = 44"

text \<open>
  The code units that \<^verbatim>\<open>String.prototype.trim\<close> and \<^verbatim>\<open>parseFloat\<close> strip:
  ECMAScript's WhiteSpace (TAB, VT, FF, ZWNBSP and the Unicode space separators) and
  LineTerminator (LF, CR, LS, PS).
\<close>

definition whiteSpaceUnits :: "code_unit list" where
  "whiteSpaceUnits =
     [9, 10, 11, 12, 13, 32, 160, 5760,
      8192, 8193, 8194, 8195, 8196, 8197, 8198, 8199, 8200, 8201, 8202,
      8232, 8233, 8239, 8287, 12288, 65279]"

definition isWhiteSpace :: "code_unit \<Rightarrow> bool" where
  "isWhiteSpace c = (c \<in> set whiteSpaceUnits)"

definition trimStart :: "jsstring \<Rightarrow> jsstring" where
  "trimStart s = dropWhile isWhiteSpace s"

definition trimEnd :: "jsstring \<Rightarrow> jsstring" where
  "trimEnd s = rev (dropWhile isWhiteSpace (rev s))"

definition trim :: "jsstring \<Rightarrow> jsstring" where
  "trim s = trimEnd (trimStart s)"

text \<open>
  \<^verbatim>\<open>s.split(sep)\<close> for a one-unit separator: the pieces between the separators, in order;
  a string without separator is its own single piece, the empty string too.
\<close>

fun splitOn :: "code_unit \<Rightarrow> jsstring \<Rightarrow> jsstring list" where
  "splitOn sep [] = [[]]"
| "splitOn sep (c # cs) =
     (if c = sep then [] # splitOn sep cs
      else (case splitOn sep cs of
              [] \<Rightarrow> [[c]]
            | p # ps \<Rightarrow> (c # p) # ps))"

text \<open>\<^verbatim>\<open>array.indexOf(v)\<close>: the first index holding \<open>v\<close>, or \<open>-1\<close>.\<close>

fun indexOf :: "'a list \<Rightarrow> 'a \<Rightarrow> int" where
  "indexOf [] v = - 1"
| "indexOf (x # xs) v =
     (if x = v then 0
      else (let i = indexOf xs v in if i = - 1 then - 1 else i + 1))"

text \<open>\<^verbatim>\<open>array[i]\<close>: reading out of range gives \<^verbatim>\<open>undefined\<close>, here \<open>None\<close>.\<close>

definition elemAt :: "'a list \<Rightarrow> int \<Rightarrow> 'a option" where
  "elemAt xs i = (if 0 \<le> i \<and> nat i < length xs then Some (xs ! nat i) else None)"

text \<open>\<^verbatim>\<open>!v\<close> for a value that is a string or \<^verbatim>\<open>undefined\<close>.\<close>

definition falsy :: "jsstring option \<Rightarrow> bool" where
  "falsy v = (case v of None \<Rightarrow> True | Some s \<Rightarrow> s = [])"

section \<open>JavaScript numbers\<close>

text \<open>
  A Number is an IEEE 754 binary64 value. A finite one is given by the rational it
  denotes; the two zeros are one value, as no operation of the program tells them apart.
  The type has a \<open>Finite q\<close> for every rational \<open>q\<close>, the doubles among them; what is
  proved for all of them holds for the doubles.
\<close>

datatype number = NaN | NegInfinity | Finite rat | PosInfinity

definition isNaN :: "number \<Rightarrow> bool" where
  "isNaN x = (case x of NaN \<Rightarrow> True | _ \<Rightarrow> False)"

text \<open>\<^verbatim>\<open>a <= b\<close> and \<^verbatim>\<open>a >= b\<close>: false whenever an operand is NaN.\<close>

fun js_le :: "number \<Rightarrow> number \<Rightarrow> bool" where
  "js_le NaN _ = False"
| "js_le _ NaN = False"
| "js_le NegInfinity _ = True"
| "js_le _ PosInfinity = True"
| "js_le (Finite a) (Finite b) = (a \<le> b)"
| "js_le (Finite a) NegInfinity = False"
| "js_le PosInfinity _ = False"

definition js_ge :: "number \<Rightarrow> number \<Rightarrow> bool" where
  "js_ge a b = js_le b a"

subsection \<open>Rounding a rational to binary64\<close>

fun bitlen :: "nat \<Rightarrow> nat" where
  "bitlen n = (if n = 0 then 0 else Suc (bitlen (n div 2)))"

declare bitlen.simps [simp del]

text \<open>The exponent \<open>e\<close> with \<open>2^e \<le> a < 2^(e+1)\<close>, for \<open>a > 0\<close>.\<close>

definition ilog2 :: "rat \<Rightarrow> int" where
  "ilog2 a =
     (if 1 \<le> a then int (bitlen (nat \<lfloor>a\<rfloor>)) - 1
      else - int (bitlen (nat (\<lceil>1 / a\<rceil> - 1))))"

definition roundHalfEven :: "rat \<Rightarrow> int" where
  "roundHalfEven x =
     (let f = \<lfloor>x\<rfloor>; d = x - of_int f
      in if d < 1 / 2 then f
         else if 1 / 2 < d then f + 1
         else if even f then f else f + 1)"

text \<open>
  Round to nearest, ties to even, with 53 significant bits, exponents from \<open>-1022\<close>
  (subnormals below) and overflow to the infinities from \<open>2^1024\<close>.
\<close>

definition to_double :: "rat \<Rightarrow> number" where
  "to_double q =
     (if q = 0 then Finite 0
      else
        let e = max (ilog2 \<bar>q\<bar>) (- 1022);
            ulp = 2 powi (e - 52);
            m = of_int (roundHalfEven (\<bar>q\<bar> / ulp)) * ulp
        in if 2 ^ 1024 \<le> m then (if q < 0 then NegInfinity else PosInfinity)
           else Finite (sgn q * m))"

subsection \<open>parseFloat\<close>

definition isDigit :: "code_unit \<Rightarrow> bool" where
  "isDigit c = (48 \<le> c \<and> c \<le> 57)"

definition digitsValue :: "jsstring \<Rightarrow> nat" where
  "digitsValue ds = foldl (\<lambda>acc d. 10 * acc + (d - 48)) 0 ds"

text \<open>An optional sign: the factor and the rest of the string.\<close>

fun takeSign :: "jsstring \<Rightarrow> int \<times> jsstring" where
  "takeSign [] = (1, [])"
| "takeSign (c # cs) =
     (if c = 43 then (1, cs) else if c = 45 then (- 1, cs) else (1, c # cs))"

text \<open>
  The exponent of the longest ExponentPart that starts the string, \<open>0\<close> when there is
  none: an \<^verbatim>\<open>e\<close> or \<^verbatim>\<open>E\<close>, an optional sign and at least one digit.
\<close>

fun exponentPart :: "jsstring \<Rightarrow> int" where
  "exponentPart [] = 0"
| "exponentPart (c # cs) =
     (if c = 101 \<or> c = 69 then
        (let (sg, r) = takeSign cs; ds = takeWhile isDigit r
         in if ds = [] then 0 else sg * int (digitsValue ds))
      else 0)"

text \<open>
  \<^verbatim>\<open>parseFloat(s)\<close>: leading white space is skipped, the longest prefix that is a
  StrDecimalLiteral is read (an optional sign, then \<^verbatim>\<open>Infinity\<close> or digits with an
  optional fraction and exponent), whatever follows is ignored, and the value is rounded
  to binary64. No such prefix gives NaN. The rounding is that of the exact decimal
  value, as the engines do it (beyond 20 significant digits the language also allows
  the neighbouring double).
\<close>

definition parseFloat :: "jsstring \<Rightarrow> number" where
  "parseFloat s =
     (let (sg, u) = takeSign (trimStart s)
      in if take 8 u = str ''Infinity'' then (if sg < 0 then NegInfinity else PosInfinity)
         else
           let ip = takeWhile isDigit u;
               r1 = dropWhile isDigit u;
               hasDot = (r1 \<noteq> [] \<and> hd r1 = 46);
               fp = (if hasDot then takeWhile isDigit (tl r1) else []);
               r2 = (if hasDot then dropWhile isDigit (tl r1) else r1)
           in if ip = [] \<and> fp = [] then NaN
              else to_double
                     (of_int sg
                      * (of_nat (digitsValue ip) + of_nat (digitsValue fp) / 10 ^ length fp)
                      * 10 powi exponentPart r2))"

section \<open>The quote parser (stooq.ts)\<close>

record Quote =
  symbol :: jsstring
  date :: jsstring
  time :: jsstring
  close :: number

text \<open>
  What a call of \<^verbatim>\<open>fetchQuote\<close> can throw: each \<^verbatim>\<open>throw new Error(...)\<close> of the source by
  its reason, in the order of the source and without the message text (\<open>HttpError\<close>
  carries the response status), and \<open>FetchRejected\<close> for an exception that comes from
  the request itself (\<^verbatim>\<open>encodeURIComponent\<close>, \<^verbatim>\<open>fetch\<close>, \<^verbatim>\<open>response.text\<close>).
\<close>

datatype error =
    EmptySymbol
  | FetchRejected
  | HttpError nat
  | EmptyResponse
  | MalformedStructure
  | MissingColumn
  | InvalidSymbol
  | MissingTimestamp
  | MissingPrice
  | InvalidPrice

text \<open>
  The part of \<^verbatim>\<open>fetchQuote\<close> that works on the response text \<^verbatim>\<open>csvText\<close>
  (stooq.ts, lines 38 to 110). \<open>the\<close> is applied only behind the \<open>falsy\<close> test of the
  same value, where the source's value is a string.
\<close>

definition parseQuote :: "jsstring \<Rightarrow> error + Quote" where
  "parseQuote csvText =
     (if csvText = [] \<or> length (trim csvText) = 0 then Inl EmptyResponse
      else
        let lines = splitOn nl (trim csvText)
        in if length lines < 2 then Inl MalformedStructure
           else
             let header = splitOn comma (lines ! 0);
                 symbolIndex = indexOf header (str ''Symbol'');
                 dateIndex = indexOf header (str ''Date'');
                 timeIndex = indexOf header (str ''Time'');
                 closeIndex = indexOf header (str ''Close'')
             in if symbolIndex = - 1 \<or> dateIndex = - 1 \<or> timeIndex = - 1 \<or> closeIndex = - 1
                then Inl MissingColumn
                else
                  let dataRow = splitOn comma (lines ! 1);
                      symbolValue = map_option trim (elemAt dataRow symbolIndex);
                      dateValue = map_option trim (elemAt dataRow dateIndex);
                      timeValue = map_option trim (elemAt dataRow timeIndex);
                      closeValue = map_option trim (elemAt dataRow closeIndex)
                  in if falsy symbolValue \<or> symbolValue = Some (str ''N/A'')
                        \<or> length (the symbolValue) = 0
                     then Inl InvalidSymbol
                     else if falsy dateValue \<or> falsy timeValue then Inl MissingTimestamp
                     else if falsy closeValue \<or> closeValue = Some (str ''N/A'')
                             \<or> length (the closeValue) = 0
                     then Inl MissingPrice
                     else
                       let closeNumber = parseFloat (the closeValue)
                       in if isNaN closeNumber then Inl InvalidPrice
                          else Inr \<lparr>symbol = the symbolValue, date = the dateValue,
                                    time = the timeValue, close = closeNumber\<rparr>)"

text \<open>
  The whole of \<^verbatim>\<open>fetchQuote\<close>, given what the request comes to: an exception
  (\<open>Rejected\<close>), or a response with its \<^verbatim>\<open>ok\<close> flag, its status and its body text.
  The request is made only for a symbol that passes the first check.
\<close>

datatype response = Rejected | Response bool nat jsstring

definition fetchQuote :: "jsstring \<Rightarrow> response \<Rightarrow> error + Quote" where
  "fetchQuote symbolArg resp =
     (if symbolArg = [] \<or> length (trim symbolArg) = 0 then Inl EmptySymbol
      else (case resp of
              Rejected \<Rightarrow> Inl FetchRejected
            | Response ok status csvText \<Rightarrow>
                if \<not> ok then Inl (HttpError status) else parseQuote csvText))"

section \<open>The alert loop (alert.ts)\<close>

datatype Direction = Above | Below

record AlertConfig =
  symbol :: jsstring
  target :: number
  direction :: Direction
  intervalMs :: number

text \<open>
  The threshold test of the loop body (alert.ts, lines 76 to 84): every direction that is
  not \<^verbatim>\<open>"above"\<close> takes the \<^verbatim>\<open>else\<close> branch.
\<close>

definition thresholdCrossed :: "Direction \<Rightarrow> number \<Rightarrow> number \<Rightarrow> bool" where
  "thresholdCrossed dir currentPrice tgt =
     (if dir = Above then js_ge currentPrice tgt else js_le currentPrice tgt)"

text \<open>
  What a run does, in order: the calls of \<^verbatim>\<open>fetchQuote\<close>, the lines written to the
  console and the sleeps. Numbers are logged as they are (\<^verbatim>\<open>toFixed\<close> is not modelled);
  a sleep is recorded with the delay of its timer, in milliseconds.
\<close>

datatype event =
    LogStarting jsstring Direction number number
  | CallFetchQuote jsstring
  | LogPrice jsstring jsstring jsstring number
  | LogAlert jsstring number Direction number
  | LogTriggeredAt jsstring jsstring
  | LogError jsstring error
  | LogRetrying number
  | Sleep int

datatype status = POLLING | TRIGGERED

text \<open>
  \<^verbatim>\<open>sleep(ms)\<close> is \<^verbatim>\<open>setTimeout(resolve, ms)\<close> (alert.ts, lines 118 to 120), on the timer of
  Node, under which the command line runs the loop. That timer sets a delay that is not
  from 1 to \<open>TIMEOUT_MAX\<close> to 1 (so a NaN, an infinity, a delay below 1 and one that
  does not fit 31 bits all become 1 millisecond), and cuts the fraction of a millisecond
  off the others.
\<close>

definition TIMEOUT_MAX :: rat where
  "TIMEOUT_MAX = 2 ^ 31 - 1"

definition timeoutDelay :: "number \<Rightarrow> int" where
  "timeoutDelay after =
     (case after of
        Finite ms \<Rightarrow> if 1 \<le> ms \<and> ms \<le> TIMEOUT_MAX then \<lfloor>ms\<rfloor> else 1
      | _ \<Rightarrow> 1)"

definition sleep :: "number \<Rightarrow> event" where
  "sleep ms = Sleep (timeoutDelay ms)"

text \<open>
  The \<^verbatim>\<open>while (true)\<close> loop of \<^verbatim>\<open>runAlert\<close> (alert.ts, lines 62 to 109), run against the
  results of its successive \<^verbatim>\<open>await fetchQuote(symbol)\<close>: \<open>Inl\<close> is a thrown error, caught
  by the loop's \<^verbatim>\<open>catch\<close>. The loop has no exit but the \<^verbatim>\<open>break\<close>; when the given
  results are used up it is still \<open>POLLING\<close>, waiting for the next one.
\<close>

fun pollLoop :: "AlertConfig \<Rightarrow> (error + Quote) list \<Rightarrow> event list \<times> status" where
  "pollLoop config [] = ([], POLLING)"
| "pollLoop config (Inl err # rest) =
     (let (evs, st) = pollLoop config rest
      in ([CallFetchQuote (AlertConfig.symbol config),
           LogError (AlertConfig.symbol config) err,
           LogRetrying (intervalMs config),
           sleep (intervalMs config)] @ evs, st))"
| "pollLoop config (Inr quote # rest) =
     (let currentPrice = close quote
      in if thresholdCrossed (direction config) currentPrice (target config)
         then ([CallFetchQuote (AlertConfig.symbol config),
                LogPrice (date quote) (time quote) (AlertConfig.symbol config) currentPrice,
                LogAlert (AlertConfig.symbol config) currentPrice (direction config) (target config),
                LogTriggeredAt (date quote) (time quote)], TRIGGERED)
         else
           (let (evs, st) = pollLoop config rest
            in ([CallFetchQuote (AlertConfig.symbol config),
                 LogPrice (date quote) (time quote) (AlertConfig.symbol config) currentPrice,
                 sleep (intervalMs config)] @ evs, st)))"

datatype configError = IntervalNotPositive | TargetNotPositive

text \<open>
  \<^verbatim>\<open>runAlert\<close>: the two configuration checks, each throwing before anything else
  happens, then the start line and the loop.
\<close>

definition runAlert ::
  "AlertConfig \<Rightarrow> (error + Quote) list \<Rightarrow> event list \<times> (configError + status)" where
  "runAlert config results =
     (if js_le (intervalMs config) (Finite 0) then ([], Inl IntervalNotPositive)
      else if js_le (target config) (Finite 0) then ([], Inl TargetNotPositive)
      else
        (let (evs, st) = pollLoop config results
         in (LogStarting (AlertConfig.symbol config) (direction config) (target config)
               (intervalMs config) # evs, Inr st)))"

section \<open>Notions of the specification\<close>

text \<open>The lines of the trimmed text, the cells of its header line and of its data row.\<close>

definition linesOf :: "jsstring \<Rightarrow> jsstring list" where
  "linesOf text = splitOn nl (trim text)"

definition headerCells :: "jsstring \<Rightarrow> jsstring list" where
  "headerCells text = (case linesOf text of [] \<Rightarrow> [] | h # _ \<Rightarrow> splitOn comma h)"

definition dataCells :: "jsstring \<Rightarrow> jsstring list" where
  "dataCells text = (case linesOf text of h # d # _ \<Rightarrow> splitOn comma d | _ \<Rightarrow> [])"

text \<open>
  The trimmed value of the data row under the column of the given name; \<open>None\<close> when
  the header has no such column or the row is too short.
\<close>

definition field :: "string \<Rightarrow> jsstring \<Rightarrow> jsstring option" where
  "field name text =
     map_option trim (elemAt (dataCells text) (indexOf (headerCells text) (str name)))"

text \<open>A line written from its cells, with a comma between neighbours.\<close>

fun joinCells :: "jsstring list \<Rightarrow> jsstring" where
  "joinCells [] = []"
| "joinCells [c] = c"
| "joinCells (c # d # cs) = c @ comma # joinCells (d # cs)"

definition blank :: "jsstring \<Rightarrow> bool" where
  "blank s = list_all isWhiteSpace s"

definition isFetch :: "event \<Rightarrow> bool" where
  "isFetch ev = (case ev of CallFetchQuote _ \<Rightarrow> True | _ \<Rightarrow> False)"

definition fetchCalls :: "event list \<Rightarrow> nat" where
  "fetchCalls evs = length (filter isFetch evs)"



fun loggedErrors :: "event list \<Rightarrow> error list" where
  "loggedErrors [] = []"
| "loggedErrors (LogError s err # evs) = err # loggedErrors evs"
| "loggedErrors (ev # evs) = loggedErrors evs"



text \<open>
  The seven failure reasons of the parser in the words of the specification, each with
  the condition under which it applies, in the order of their priority; the first that
  applies is the one reported. A field is empty when it is absent or has no characters
  left after trimming.
\<close>

definition emptyField :: "jsstring option \<Rightarrow> bool" where
  "emptyField v = (v = None \<or> v = Some [])"

definition failureReasons :: "jsstring \<Rightarrow> (bool \<times> error) list" where
  "failureReasons text =
     [(trim text = [], EmptyResponse),
      (length (linesOf text) < 2, MalformedStructure),
      (list_ex (\<lambda>name. str name \<notin> set (headerCells text))
         [''Symbol'', ''Date'', ''Time'', ''Close''], MissingColumn),
      (emptyField (field ''Symbol'' text) \<or> field ''Symbol'' text = Some (str ''N/A''),
       InvalidSymbol),
      (emptyField (field ''Date'' text) \<or> emptyField (field ''Time'' text), MissingTimestamp),
      (emptyField (field ''Close'' text) \<or> field ''Close'' text = Some (str ''N/A''),
       MissingPrice),
      ((case field ''Close'' text of None \<Rightarrow> False | Some v \<Rightarrow> parseFloat v = NaN),
       InvalidPrice)]"


definition firstFailure :: "jsstring \<Rightarrow> error option" where
  "firstFailure text = map_option snd (find fst (failureReasons text))"

section \<open>The alert loop: threshold, validation, transitions\<close>

lemma js_le_refl: "js_le x x = (\<not> isNaN x)"
  by (cases x) (simp_all add: isNaN_def)

lemma js_le_iff:
  "js_le a b \<longleftrightarrow>
     \<not> isNaN a \<and> \<not> isNaN b
     \<and> (a = NegInfinity \<or> b = PosInfinity \<or> (\<exists>p q. a = Finite p \<and> b = Finite q \<and> p \<le> q))"
  by (cases a; cases b) (simp_all add: isNaN_def)

text \<open>
  Claim C4. For every close price and target price, the threshold test holds for direction
  Above exactly when close \<open>\<ge>\<close> target and for direction Below exactly when
  close \<open>\<le>\<close> target, with the comparison of JavaScript numbers: on finite values the
  order of the values, with the infinities below and above them, and never true of a
  NaN. A close equal to the target counts as crossed in both directions (a NaN is equal
  to nothing, itself included).
\<close>

theorem threshold_predicate:
  "(thresholdCrossed Above closePrice tgt \<longleftrightarrow> js_ge closePrice tgt)
   \<and> (thresholdCrossed Below closePrice tgt \<longleftrightarrow> js_le closePrice tgt)
   \<and> (thresholdCrossed Above (Finite c) (Finite t) \<longleftrightarrow> t \<le> c)
   \<and> (thresholdCrossed Below (Finite c) (Finite t) \<longleftrightarrow> c \<le> t)
   \<and> (thresholdCrossed dir x x \<longleftrightarrow> \<not> isNaN x)
   \<and> (js_le a b \<longleftrightarrow>
        \<not> isNaN a \<and> \<not> isNaN b
        \<and> (a = NegInfinity \<or> b = PosInfinity \<or> (\<exists>p q. a = Finite p \<and> b = Finite q \<and> p \<le> q)))"
  using js_le_iff [of a b] by (simp add: thresholdCrossed_def js_ge_def js_le_refl)

text \<open>
  Claim C7. For every configuration with \<open>intervalMs \<le> 0\<close> or \<open>target \<le> 0\<close>,
  \<open>runAlert\<close> throws its configuration error (the interval is checked first) with an
  empty trace, whatever the fetches would have returned: the loop is not entered and
  \<open>fetchQuote\<close> is never called.
\<close>

theorem invalid_config_rejected:
  assumes "js_le (intervalMs config) (Finite 0) \<or> js_le (target config) (Finite 0)"
  shows "runAlert config results =
           ([], Inl (if js_le (intervalMs config) (Finite 0) then IntervalNotPositive
                     else TargetNotPositive))
         \<and> fetchCalls (fst (runAlert config results)) = 0"
  using assms by (auto simp add: runAlert_def fetchCalls_def)

theorem invalid_config_rejected_witness:
  "runAlert \<lparr>AlertConfig.symbol = str ''AAPL.US'', target = Finite 100, direction = Below,
             intervalMs = Finite (- 1)\<rparr>
     [Inr \<lparr>Quote.symbol = str ''AAPL.US'', date = str ''2024-01-02'', time = str ''16:00:00'',
           close = Finite 99\<rparr>]
   = ([], Inl IntervalNotPositive)"
  using invalid_config_rejected
    [of "\<lparr>AlertConfig.symbol = str ''AAPL.US'', target = Finite 100, direction = Below,
           intervalMs = Finite (- 1)\<rparr>"
        "[Inr \<lparr>Quote.symbol = str ''AAPL.US'', date = str ''2024-01-02'',
               time = str ''16:00:00'', close = Finite 99\<rparr>]"]
  by simp







lemma loggedErrors_append: "loggedErrors (xs @ ys) = loggedErrors xs @ loggedErrors ys"
  by (induction xs rule: loggedErrors.induct) simp_all






section \<open>Facts about trimming, splitting and indexing\<close>

lemma trim_Nil: "trim [] = []"
  by (simp add: trim_def trimStart_def trimEnd_def)

lemma not_ws_comma: "\<not> isWhiteSpace comma"
  by (simp add: isWhiteSpace_def whiteSpaceUnits_def comma_def)

lemma ws_nl: "isWhiteSpace nl"
  by (simp add: isWhiteSpace_def whiteSpaceUnits_def nl_def)

lemma trimStart_eq_Nil: "trimStart s = [] \<longleftrightarrow> blank s"
  by (simp add: trimStart_def blank_def dropWhile_eq_Nil_conv list_all_iff)

lemma trimEnd_eq_Nil: "trimEnd s = [] \<longleftrightarrow> blank s"
  by (simp add: trimEnd_def blank_def dropWhile_eq_Nil_conv list_all_iff)

lemma trimStart_not_blank: "trimStart s \<noteq> [] \<Longrightarrow> \<not> isWhiteSpace (hd (trimStart s))"
  unfolding trimStart_def by (rule hd_dropWhile)

lemma trimStart_id: "s \<noteq> [] \<Longrightarrow> \<not> isWhiteSpace (hd s) \<Longrightarrow> trimStart s = s"
  by (cases s) (simp_all add: trimStart_def)

lemma blank_append: "blank (a @ b) \<longleftrightarrow> blank a \<and> blank b"
  by (simp add: blank_def)

lemma blank_trimStart: "blank (trimStart s) \<longleftrightarrow> blank s"
proof
  assume b: "blank (trimStart s)"
  show "blank s"
  proof (rule ccontr)
    assume "\<not> blank s"
    then have ne: "trimStart s \<noteq> []" by (simp add: trimStart_eq_Nil)
    then have "\<not> isWhiteSpace (hd (trimStart s))" by (rule trimStart_not_blank)
    moreover from ne b have "isWhiteSpace (hd (trimStart s))"
      by (cases "trimStart s") (simp_all add: blank_def)
    ultimately show False by simp
  qed
next
  assume "blank s"
  then show "blank (trimStart s)"
    by (auto simp: blank_def trimStart_def list_all_iff dest: set_dropWhileD)
qed

lemma trim_eq_Nil: "trim s = [] \<longleftrightarrow> blank s"
  by (simp add: trim_def trimEnd_eq_Nil blank_trimStart)

text \<open>What \<open>trimEnd\<close> removes is a blank suffix.\<close>

lemma trimEnd_decomp: "\<exists>w. blank w \<and> s = trimEnd s @ w"
proof -
  have "rev s = takeWhile isWhiteSpace (rev s) @ dropWhile isWhiteSpace (rev s)" by simp
  then have "s = rev (dropWhile isWhiteSpace (rev s)) @ rev (takeWhile isWhiteSpace (rev s))"
    by (metis rev_append rev_rev_ident)
  moreover have "blank (rev (takeWhile isWhiteSpace (rev s)))"
    by (auto simp: blank_def list_all_iff dest: set_takeWhileD)
  ultimately show ?thesis unfolding trimEnd_def by blast
qed

lemma set_trimEnd: "set (trimEnd s) \<subseteq> set s"
  using trimEnd_decomp[of s] by (metis Un_iff set_append subsetI)

lemma hd_trim_not_ws: "trim s \<noteq> [] \<Longrightarrow> \<not> isWhiteSpace (hd (trim s))"
proof -
  assume ne: "trim s \<noteq> []"
  obtain w where "trimStart s = trimEnd (trimStart s) @ w"
    using trimEnd_decomp by blast
  with ne have hd: "hd (trim s) = hd (trimStart s)"
    unfolding trim_def by (metis hd_append2)
  from ne have "trimStart s \<noteq> []"
    by (auto simp: trim_def trimEnd_def)
  then have "\<not> isWhiteSpace (hd (trimStart s))" by (rule trimStart_not_blank)
  with hd show ?thesis by simp
qed

lemma trimEnd_append_not_blank: "\<not> blank b \<Longrightarrow> trimEnd (a @ b) = a @ trimEnd b"
proof -
  assume "\<not> blank b"
  then obtain x where "x \<in> set (rev b)" "\<not> isWhiteSpace x"
    by (auto simp: blank_def list_all_iff)
  then have "dropWhile isWhiteSpace (rev b @ rev a) = dropWhile isWhiteSpace (rev b) @ rev a"
    by (rule dropWhile_append1)
  then show ?thesis by (simp add: trimEnd_def)
qed

lemma trimEnd_append_blank: "blank w \<Longrightarrow> trimEnd (a @ w) = trimEnd a"
proof -
  assume "blank w"
  then have "\<And>x. x \<in> set (rev w) \<Longrightarrow> isWhiteSpace x"
    by (simp add: blank_def list_all_iff)
  then have "dropWhile isWhiteSpace (rev w @ rev a) = dropWhile isWhiteSpace (rev a)"
    by (rule dropWhile_append2)
  then show ?thesis by (simp add: trimEnd_def)
qed

lemma trimStart_append_not_blank: "\<not> blank a \<Longrightarrow> trimStart (a @ b) = trimStart a @ b"
proof -
  assume "\<not> blank a"
  then obtain x where "x \<in> set a" "\<not> isWhiteSpace x"
    by (auto simp: blank_def list_all_iff)
  then show ?thesis unfolding trimStart_def by (rule dropWhile_append1)
qed

lemma trim_append_blank: "blank w \<Longrightarrow> trim (x @ w) = trim x"
proof (cases "blank x")
  case True
  assume "blank w"
  with True have "blank (x @ w)" by (simp add: blank_append)
  with True show ?thesis by (simp add: trim_eq_Nil[symmetric])
next
  case False
  assume "blank w"
  with False show ?thesis
    by (simp add: trim_def trimStart_append_not_blank trimEnd_append_blank)
qed

lemma splitOn_not_Nil: "splitOn sep s \<noteq> []"
  by (induction s) (auto split: list.splits)

lemma splitOn_no_sep: "sep \<notin> set s \<Longrightarrow> splitOn sep s = [s]"
  by (induction s) auto

lemma splitOn_append: "sep \<notin> set a \<Longrightarrow> splitOn sep (a @ sep # b) = a # splitOn sep b"
  by (induction a) auto

lemma splitOn_no_sep_in_pieces: "p \<in> set (splitOn sep s) \<Longrightarrow> sep \<notin> set p"
  by (induction s arbitrary: p) (auto split: if_splits list.splits)

text \<open>A string with at least two pieces starts with its first piece and a separator.\<close>

lemma splitOn_two:
  "splitOn sep s = a # b # rest \<Longrightarrow> \<exists>s'. s = a @ sep # s' \<and> splitOn sep s' = b # rest"
proof (induction s arbitrary: a)
  case Nil
  then show ?case by simp
next
  case (Cons c cs)
  show ?case
  proof (cases "c = sep")
    case True
    with Cons.prems show ?thesis by auto
  next
    case False
    with Cons.prems obtain a' where a: "a = c # a'" and sp: "splitOn sep cs = a' # b # rest"
      by (auto split: list.splits)
    from Cons.IH[OF sp] obtain s' where "cs = a' @ sep # s'" "splitOn sep s' = b # rest"
      by blast
    with a show ?thesis by auto
  qed
qed

text \<open>A suffix without separator only lengthens the last piece.\<close>

lemma splitOn_append_no_sep:
  "sep \<notin> set w \<Longrightarrow>
   splitOn sep (a @ w) = butlast (splitOn sep a) @ [last (splitOn sep a) @ w]"
proof (induction a)
  case Nil
  then show ?case by (simp add: splitOn_no_sep)
next
  case (Cons c cs)
  then show ?case
    using splitOn_not_Nil[of sep cs] splitOn_not_Nil[of sep "cs @ w"]
    by (auto split: list.splits simp: butlast_append)
qed

lemma map_trim_splitOn_trimEnd:
  "map trim (splitOn comma (trimEnd s)) = map trim (splitOn comma s)"
proof -
  obtain w where w: "blank w" and s: "s = trimEnd s @ w" using trimEnd_decomp by blast
  from w have nc: "comma \<notin> set w"
    using not_ws_comma by (auto simp: blank_def list_all_iff)
  let ?ps = "splitOn comma (trimEnd s)"
  have ne: "?ps \<noteq> []" by (rule splitOn_not_Nil)
  have "splitOn comma s = butlast ?ps @ [last ?ps @ w]"
    using splitOn_append_no_sep[OF nc, of "trimEnd s"] s by simp
  then have "map trim (splitOn comma s) = map trim (butlast ?ps) @ [trim (last ?ps)]"
    by (simp add: trim_append_blank[OF w])
  also have "\<dots> = map trim (butlast ?ps @ [last ?ps])" by simp
  also have "\<dots> = map trim ?ps" using ne by simp
  finally show ?thesis by simp
qed

lemma indexOf_ge: "- 1 \<le> indexOf xs v"
  by (induction xs) (auto simp: Let_def)

lemma indexOf_absent: "indexOf xs v = - 1 \<longleftrightarrow> v \<notin> set xs"
proof (induction xs)
  case Nil
  show ?case by simp
next
  case (Cons x xs)
  have "- 1 \<le> indexOf xs v" by (rule indexOf_ge)
  with Cons show ?case by (auto simp: Let_def)
qed

lemma elemAt_map: "map_option f (elemAt xs i) = elemAt (map f xs) i"
  by (simp add: elemAt_def)

lemma falsy_iff: "falsy v \<longleftrightarrow> v = None \<or> v = Some []"
  by (cases v) (simp_all add: falsy_def)

lemma isNaN_iff: "isNaN x \<longleftrightarrow> x = NaN"
  by (cases x) (simp_all add: isNaN_def)

section \<open>Facts about numbers and parseFloat\<close>

lemma case_to_double:
  "(case to_double q of NaN \<Rightarrow> a | NegInfinity \<Rightarrow> b | Finite x \<Rightarrow> b | PosInfinity \<Rightarrow> b) = b"
  by (simp add: to_double_def Let_def)

lemma to_double_0: "to_double 0 = Finite 0"
  by (simp add: to_double_def)

lemma to_double_minus_5: "to_double (- 5) = Finite (- 5)"
  by (simp add: to_double_def ilog2_def bitlen.simps roundHalfEven_def Let_def power_int_def
        power_one_over)

text \<open>The double nearest to 185.64, step by step.\<close>

lemma floor_example: "\<lfloor>4641 / 25 :: rat\<rfloor> = 185"
  using floor_divide_of_int_eq [of 4641 25, where ?'a = rat] by simp

lemma floor_scaled_example: "\<lfloor>163290670864269312 / 25 :: rat\<rfloor> = 6531626834570772"
  using floor_divide_of_int_eq [of 163290670864269312 25, where ?'a = rat] by simp

lemma ilog2_example: "ilog2 (4641 / 25) = 7"
  by (simp add: ilog2_def floor_example bitlen.simps)

lemma to_double_example: "to_double (18564 / 100) = Finite (1632906708642693 / 8796093022208)"
  unfolding to_double_def Let_def
  by (simp add: ilog2_example floor_scaled_example power_int_def power_one_over
        roundHalfEven_def Let_def)

lemma digit_not_ws: "isDigit c \<Longrightarrow> \<not> isWhiteSpace c"
  by (auto simp: isDigit_def isWhiteSpace_def whiteSpaceUnits_def)

lemma takeWhile_digits:
  "list_all isDigit ds \<Longrightarrow> r = [] \<or> \<not> isDigit (hd r) \<Longrightarrow> takeWhile isDigit (ds @ r) = ds"
  by (cases r) (auto simp: list_all_iff takeWhile_append2)

lemma dropWhile_digits:
  "list_all isDigit ds \<Longrightarrow> r = [] \<or> \<not> isDigit (hd r) \<Longrightarrow> dropWhile isDigit (ds @ r) = r"
  by (cases r) (auto simp: list_all_iff dropWhile_append2)

lemma exponentPart_none: "r = [] \<or> (hd r \<noteq> 101 \<and> hd r \<noteq> 69) \<Longrightarrow> exponentPart r = 0"
  by (cases r) auto

text \<open>
  Digits, a point and digits are read as their decimal value whatever follows them,
  unless it goes on as a number (a further digit or an exponent mark).
\<close>

lemma parseFloat_prefix:
  assumes ip: "ip \<noteq> []" "list_all isDigit ip" and fp: "list_all isDigit fp"
    and rest: "rest = [] \<or> (\<not> isDigit (hd rest) \<and> hd rest \<noteq> 101 \<and> hd rest \<noteq> 69)"
  shows "parseFloat (ip @ 46 # fp @ rest) =
           to_double (of_nat (digitsValue ip) + of_nat (digitsValue fp) / 10 ^ length fp)"
proof -
  let ?s = "ip @ 46 # fp @ rest"
  from ip obtain d ds where ipc: "ip = d # ds" and d: "isDigit d"
    by (cases ip) auto
  have ts: "trimStart ?s = ?s"
    using ipc digit_not_ws[OF d] by (simp add: trimStart_def)
  have sg: "takeSign ?s = (1, ?s)"
    using ipc d by (auto simp: isDigit_def)
  have inf: "take 8 ?s \<noteq> str ''Infinity''"
    using ipc d by (auto simp: isDigit_def str_def)
  have nd: "\<not> isDigit 46" by (simp add: isDigit_def)
  have tw: "takeWhile isDigit ?s = ip" and dw: "dropWhile isDigit ?s = 46 # fp @ rest"
    using ip(2) nd by (simp_all add: takeWhile_digits dropWhile_digits)
  have r': "rest = [] \<or> \<not> isDigit (hd rest)" using rest by blast
  have tw2: "takeWhile isDigit (fp @ rest) = fp" and dw2: "dropWhile isDigit (fp @ rest) = rest"
    using fp r' by (simp_all add: takeWhile_digits dropWhile_digits)
  have ex: "exponentPart rest = 0" using rest by (intro exponentPart_none) blast
  show ?thesis
    unfolding parseFloat_def ts sg using inf ip(1)
    by (simp add: tw dw tw2 dw2 ex Let_def)
qed

section \<open>The parser, check by check\<close>

text \<open>
  \<open>parseQuote\<close> in terms of the lines, header cells and fields of the text: the same
  chain of checks, in the order of the source.
\<close>

lemma parseQuote_unfold:
  "parseQuote text =
     (if trim text = [] then Inl EmptyResponse
      else if length (linesOf text) < 2 then Inl MalformedStructure
      else if indexOf (headerCells text) (str ''Symbol'') = - 1
              \<or> indexOf (headerCells text) (str ''Date'') = - 1
              \<or> indexOf (headerCells text) (str ''Time'') = - 1
              \<or> indexOf (headerCells text) (str ''Close'') = - 1
      then Inl MissingColumn
      else if falsy (field ''Symbol'' text) \<or> field ''Symbol'' text = Some (str ''N/A'')
      then Inl InvalidSymbol
      else if falsy (field ''Date'' text) \<or> falsy (field ''Time'' text)
      then Inl MissingTimestamp
      else if falsy (field ''Close'' text) \<or> field ''Close'' text = Some (str ''N/A'')
      then Inl MissingPrice
      else if isNaN (parseFloat (the (field ''Close'' text))) then Inl InvalidPrice
      else Inr \<lparr>Quote.symbol = the (field ''Symbol'' text), date = the (field ''Date'' text),
                time = the (field ''Time'' text),
                close = parseFloat (the (field ''Close'' text))\<rparr>)"
proof (cases "trim text = []")
  case True
  then show ?thesis by (simp add: parseQuote_def)
next
  case ne: False
  then have tne: "text \<noteq> []" using trim_Nil by auto
  show ?thesis
  proof (cases "length (linesOf text) < 2")
    case True
    with ne tne show ?thesis by (simp add: parseQuote_def linesOf_def Let_def)
  next
    case False
    then obtain h d rest where ls: "linesOf text = h # d # rest"
      by (cases "linesOf text"; cases "tl (linesOf text)") auto
    have hc: "headerCells text = splitOn comma (splitOn nl (trim text) ! 0)"
      using ls by (simp add: headerCells_def linesOf_def)
    have dc: "dataCells text = splitOn comma (splitOn nl (trim text) ! 1)"
      using ls by (simp add: dataCells_def linesOf_def)
    have len: "\<not> length (splitOn nl (trim text)) < 2"
      using ls by (simp add: linesOf_def)
    have f: "falsy v \<or> v = Some n \<or> length (the v) = 0 \<longleftrightarrow> falsy v \<or> v = Some n" for v n
      by (cases v) (auto simp: falsy_def)
    show ?thesis
      unfolding parseQuote_def Let_def f field_def hc dc
      using ne tne len False by (simp add: linesOf_def)
  qed
qed

lemma two_lines_not_empty: "2 \<le> length (linesOf text) \<Longrightarrow> trim text \<noteq> []"
  by (auto simp: linesOf_def)

lemma missing_column:
  assumes "2 \<le> length (linesOf text)"
    and "str ''Symbol'' \<notin> set (headerCells text) \<or> str ''Date'' \<notin> set (headerCells text)
         \<or> str ''Time'' \<notin> set (headerCells text) \<or> str ''Close'' \<notin> set (headerCells text)"
  shows "parseQuote text = Inl MissingColumn"
  using assms two_lines_not_empty[OF assms(1)]
  by (auto simp add: parseQuote_unfold indexOf_absent)

text \<open>The definitions that evaluate the parser on a given text.\<close>

lemmas eval_string = trim_def trimStart_def trimEnd_def isWhiteSpace_def whiteSpaceUnits_def
  str_def nl_def comma_def

lemmas eval_parse = parseQuote_def eval_string elemAt_def falsy_def isNaN_def
  parseFloat_def isDigit_def digitsValue_def case_to_double

section \<open>The parser: one-line bodies and the order of the checks\<close>

text \<open>
  Claim C2, as amended. For every body whose trimmed text has no line break (a single
  line, with or without line breaks around it), parsing fails with MalformedStructure
  when the line is not blank, and with EmptyResponse when it is empty or all white space.
\<close>

theorem one_line_body:
  assumes "nl \<notin> set (trim text)"
  shows "parseQuote text = (if blank text then Inl EmptyResponse else Inl MalformedStructure)"
proof -
  from assms have "linesOf text = [trim text]" by (simp add: linesOf_def splitOn_no_sep)
  then show ?thesis by (simp add: parseQuote_unfold trim_eq_Nil)
qed

theorem one_line_body_witness:
  "parseQuote (str ''Symbol,Date,Time,Close'' @ [nl]) = Inl MalformedStructure"
proof -
  have "nl \<notin> set (trim (str ''Symbol,Date,Time,Close'' @ [nl]))"
    by (simp add: eval_string)
  moreover have "\<not> blank (str ''Symbol,Date,Time,Close'' @ [nl])"
    by (simp add: blank_def eval_string)
  ultimately show ?thesis
    using one_line_body [of "str ''Symbol,Date,Time,Close'' @ [nl]"] by simp
qed

text \<open>
  The claim as stated fails on a line of one space: the body has one line, and the
  failure is EmptyResponse.
\<close>

theorem one_line_body_counterexample:
  "splitOn nl (str '' '') = [str '' ''] \<and> parseQuote (str '' '') = Inl EmptyResponse"
  by (simp add: parseQuote_def eval_string)

lemma parseQuote_firstFailure:
  "parseQuote text =
     (case firstFailure text of
        Some reason \<Rightarrow> Inl reason
      | None \<Rightarrow> Inr \<lparr>Quote.symbol = the (field ''Symbol'' text),
                      date = the (field ''Date'' text),
                      time = the (field ''Time'' text),
                      close = parseFloat (the (field ''Close'' text))\<rparr>)"
  unfolding parseQuote_unfold firstFailure_def failureReasons_def
  by (auto simp add: indexOf_absent falsy_iff emptyField_def isNaN_iff split: option.splits)

lemma parse_all_not_available:
  "parseQuote (str ''Symbol,Date,Time,Close'' @ [nl] @ str ''N/A,N/A,N/A,N/A'')
     = Inl InvalidSymbol"
  by (simp add: eval_parse)

text \<open>
  Claim C3. For every response text the parser fails with the first of the seven reasons
  EmptyResponse, MalformedStructure, MissingColumn, InvalidSymbol, MissingTimestamp,
  MissingPrice, InvalidPrice whose condition holds, and succeeds when none holds; a text
  of two or more lines whose header has no cell \<open>Close\<close> fails with MissingColumn whatever
  its data row holds; the row \<open>N/A,N/A,N/A,N/A\<close> under the complete header fails with
  InvalidSymbol.
\<close>

theorem failure_priority:
  "parseQuote text =
     (case firstFailure text of
        Some reason \<Rightarrow> Inl reason
      | None \<Rightarrow> Inr \<lparr>Quote.symbol = the (field ''Symbol'' text),
                      date = the (field ''Date'' text),
                      time = the (field ''Time'' text),
                      close = parseFloat (the (field ''Close'' text))\<rparr>)
   \<and> map snd (failureReasons text) =
        [EmptyResponse, MalformedStructure, MissingColumn, InvalidSymbol, MissingTimestamp,
         MissingPrice, InvalidPrice]
   \<and> (2 \<le> length (linesOf text) \<and> str ''Close'' \<notin> set (headerCells text) \<longrightarrow>
        parseQuote text = Inl MissingColumn)
   \<and> parseQuote (str ''Symbol,Date,Time,Close'' @ [nl] @ str ''N/A,N/A,N/A,N/A'')
        = Inl InvalidSymbol"
  using parseQuote_firstFailure missing_column parse_all_not_available
  by (simp add: failureReasons_def)

theorem failure_priority_witness:
  "parseQuote (str ''Symbol,Date,Time,Price'' @ [nl] @ str ''AAPL.US,2024-01-02,16:00:00,185.64'')
     = Inl MissingColumn"
proof -
  let ?text = "str ''Symbol,Date,Time,Price'' @ [nl] @ str ''AAPL.US,2024-01-02,16:00:00,185.64''"
  have ls: "linesOf ?text = [str ''Symbol,Date,Time,Price'', str ''AAPL.US,2024-01-02,16:00:00,185.64'']"
    by (simp add: linesOf_def eval_string)
  have "2 \<le> length (linesOf ?text)" unfolding ls by simp
  moreover have "str ''Close'' \<notin> set (headerCells ?text)"
    unfolding headerCells_def ls by (simp add: str_def comma_def)
  ultimately show ?thesis using failure_priority [of ?text] by blast
qed

section \<open>The parser: short rows, header cells, the close price\<close>

lemma field_out_of_range:
  "int (length (dataCells text)) \<le> indexOf (headerCells text) (str name) \<Longrightarrow>
   field name text = None"
  by (simp add: field_def elemAt_def)

text \<open>
  Claim C9. For every text of two or more lines with a complete header whose data row
  has no cell at the index of a required column, nothing is read out of range: the
  field is absent, and the parser fails with InvalidSymbol, MissingTimestamp or
  MissingPrice, the first of them that applies (InvalidSymbol when the Symbol cell is the
  absent one, never MissingPrice when Date or Time is).
\<close>

theorem short_data_row:
  assumes lines: "2 \<le> length (linesOf text)"
    and header: "list_all (\<lambda>n. str n \<in> set (headerCells text))
                   [''Symbol'', ''Date'', ''Time'', ''Close'']"
    and name: "name \<in> set [''Symbol'', ''Date'', ''Time'', ''Close'']"
    and short: "int (length (dataCells text)) \<le> indexOf (headerCells text) (str name)"
  shows "field name text = None
     \<and> parseQuote text =
         (if emptyField (field ''Symbol'' text) \<or> field ''Symbol'' text = Some (str ''N/A'')
          then Inl InvalidSymbol
          else if emptyField (field ''Date'' text) \<or> emptyField (field ''Time'' text)
          then Inl MissingTimestamp
          else Inl MissingPrice)
     \<and> (name = ''Symbol'' \<longrightarrow> parseQuote text = Inl InvalidSymbol)
     \<and> (name = ''Date'' \<or> name = ''Time'' \<longrightarrow>
          parseQuote text = Inl InvalidSymbol \<or> parseQuote text = Inl MissingTimestamp)"
proof -
  have none: "field name text = None" using short by (rule field_out_of_range)
  have ne: "trim text \<noteq> []" using lines by (rule two_lines_not_empty)
  have idx: "indexOf (headerCells text) (str ''Symbol'') \<noteq> - 1"
    "indexOf (headerCells text) (str ''Date'') \<noteq> - 1"
    "indexOf (headerCells text) (str ''Time'') \<noteq> - 1"
    "indexOf (headerCells text) (str ''Close'') \<noteq> - 1"
    using header by (simp_all add: indexOf_absent)
  have pq: "parseQuote text =
         (if emptyField (field ''Symbol'' text) \<or> field ''Symbol'' text = Some (str ''N/A'')
          then Inl InvalidSymbol
          else if emptyField (field ''Date'' text) \<or> emptyField (field ''Time'' text)
          then Inl MissingTimestamp
          else Inl MissingPrice)"
    using name none ne lines idx
    by (auto simp add: parseQuote_unfold falsy_iff emptyField_def)
  from pq none show ?thesis by (auto simp add: emptyField_def)
qed

theorem short_data_row_witness:
  "parseQuote (str ''Symbol,Date,Time,Close'' @ [nl] @ str ''AAPL.US,2024-01-02'')
     = Inl MissingTimestamp
   \<and> field ''Time'' (str ''Symbol,Date,Time,Close'' @ [nl] @ str ''AAPL.US,2024-01-02'') = None"
proof -
  let ?text = "str ''Symbol,Date,Time,Close'' @ [nl] @ str ''AAPL.US,2024-01-02''"
  have ls: "linesOf ?text = [str ''Symbol,Date,Time,Close'', str ''AAPL.US,2024-01-02'']"
    by (simp add: linesOf_def eval_string)
  have hc: "headerCells ?text = [str ''Symbol'', str ''Date'', str ''Time'', str ''Close'']"
    unfolding headerCells_def ls by (simp add: str_def comma_def)
  have dc: "dataCells ?text = [str ''AAPL.US'', str ''2024-01-02'']"
    unfolding dataCells_def ls by (simp add: str_def comma_def)
  have h1: "2 \<le> length (linesOf ?text)" unfolding ls by simp
  have h2: "list_all (\<lambda>n. str n \<in> set (headerCells ?text))
              [''Symbol'', ''Date'', ''Time'', ''Close'']"
    unfolding hc by simp
  have h3: "''Time'' \<in> set [''Symbol'', ''Date'', ''Time'', ''Close'']" by simp
  have h4: "int (length (dataCells ?text)) \<le> indexOf (headerCells ?text) (str ''Time'')"
    unfolding hc dc by (simp add: str_def)
  have f: "field ''Symbol'' ?text = Some (str ''AAPL.US'')"
    "field ''Date'' ?text = Some (str ''2024-01-02'')"
    unfolding field_def hc dc by (simp_all add: elemAt_def eval_string)
  from short_data_row [OF h1 h2 h3 h4] f show ?thesis
    by (simp add: emptyField_def str_def)
qed

lemma hd_splitOn: "hd (splitOn sep s) = takeWhile (\<lambda>c. c \<noteq> sep) s"
  using splitOn_not_Nil[of sep] by (induction s) (auto split: list.splits)

lemma first_header_cell:
  assumes "2 \<le> length (linesOf text)"
  shows "trimStart (hd (headerCells text)) = hd (headerCells text)"
proof -
  from assms obtain l0 l1 rest where ls: "linesOf text = l0 # l1 # rest"
    by (cases "linesOf text"; cases "tl (linesOf text)") auto
  then obtain s' where t: "trim text = l0 @ nl # s'"
    unfolding linesOf_def using splitOn_two by blast
  then have "\<not> isWhiteSpace (hd (trim text))" by (intro hd_trim_not_ws) simp
  with t obtain c cs where l0: "l0 = c # cs" and c: "\<not> isWhiteSpace c"
    using ws_nl by (cases l0) auto
  have "hd (headerCells text) = takeWhile (\<lambda>c. c \<noteq> comma) l0"
    using ls by (simp add: headerCells_def hd_splitOn)
  with l0 c show ?thesis by (simp add: trimStart_def)
qed

text \<open>
  Claim C10, as amended. Header cells are compared as they are, without trimming each
  cell: for every text of two or more lines (after the trimming of the whole text) in
  whose header line no cell is exactly a required column name, a cell such as
  \<open>Close\<close> with a space before it not counting, parsing fails with MissingColumn.
  The trimming of the whole text does take the white space before the first header cell
  away, so that cell never starts with white space.
\<close>

theorem header_cells_exact:
  "(2 \<le> length (linesOf text) \<and> name \<in> set [''Symbol'', ''Date'', ''Time'', ''Close'']
      \<and> str name \<notin> set (headerCells text) \<longrightarrow> parseQuote text = Inl MissingColumn)
   \<and> (2 \<le> length (linesOf text) \<longrightarrow>
        trimStart (hd (headerCells text)) = hd (headerCells text))"
  using missing_column [of "text"] first_header_cell [of "text"] by auto

theorem header_cells_exact_witness:
  "parseQuote (str ''Symbol,Date,Time, Close'' @ [nl] @ str ''AAPL.US,2024-01-02,16:00:00,185.64'')
     = Inl MissingColumn"
proof -
  let ?text = "str ''Symbol,Date,Time, Close'' @ [nl] @ str ''AAPL.US,2024-01-02,16:00:00,185.64''"
  have ls: "linesOf ?text = [str ''Symbol,Date,Time, Close'', str ''AAPL.US,2024-01-02,16:00:00,185.64'']"
    by (simp add: linesOf_def eval_string)
  have "2 \<le> length (linesOf ?text)" unfolding ls by simp
  moreover have "headerCells ?text = [str ''Symbol'', str ''Date'', str ''Time'', str '' Close'']"
    unfolding headerCells_def ls by (simp add: str_def comma_def)
  then have "str ''Close'' \<notin> set (headerCells ?text)" by (simp add: str_def)
  moreover have "''Close'' \<in> set [''Symbol'', ''Date'', ''Time'', ''Close'']" by simp
  ultimately show ?thesis using header_cells_exact [of ?text "''Close''"] by blast
qed

text \<open>
  The claim as stated fails where the cell with white space is the first one: the first
  line of the input is \<open>Symbol,Date,Time,Close\<close> with a space before it, its first cell
  is not \<open>Symbol\<close>, and the text parses.
\<close>

theorem header_cells_exact_counterexample:
  "hd (splitOn comma (hd (splitOn nl
       (str '' Symbol,Date,Time,Close'' @ [nl] @ str ''AAPL.US,2024-01-02,16:00:00,185.64''))))
     = str '' Symbol''
   \<and> parseQuote
        (str '' Symbol,Date,Time,Close'' @ [nl] @ str ''AAPL.US,2024-01-02,16:00:00,185.64'')
     = Inr \<lparr>Quote.symbol = str ''AAPL.US'', date = str ''2024-01-02'',
             time = str ''16:00:00'', close = to_double (18564 / 100)\<rparr>"
  by (simp add: eval_parse)

text \<open>
  Claim C1, as amended. For every response text on which the parser succeeds, the close
  of the quote is a number, not NaN: it is what \<open>parseFloat\<close> reads from the trimmed,
  non-empty Close field. Nothing makes it positive.
\<close>

theorem close_is_a_number:
  assumes "parseQuote text = Inr quote"
  shows "\<not> isNaN (close quote)
     \<and> (\<exists>v. field ''Close'' text = Some v \<and> v \<noteq> [] \<and> close quote = parseFloat v)"
proof -
  from assms have c: "\<not> falsy (field ''Close'' text)"
    "\<not> isNaN (parseFloat (the (field ''Close'' text)))"
    "close quote = parseFloat (the (field ''Close'' text))"
    by (auto simp add: parseQuote_unfold split: if_splits)
  from c(1) obtain v where "field ''Close'' text = Some v" "v \<noteq> []"
    by (auto simp add: falsy_iff)
  with c show ?thesis by simp
qed

lemma parse_close_zero:
  "parseQuote (str ''Symbol,Date,Time,Close'' @ [nl] @ str ''AAPL.US,2024-01-02,16:00:00,0'')
     = Inr \<lparr>Quote.symbol = str ''AAPL.US'', date = str ''2024-01-02'',
             time = str ''16:00:00'', close = Finite 0\<rparr>"
  by (simp add: eval_parse to_double_0)

theorem close_is_a_number_witness:
  "\<not> isNaN (Finite 0)
   \<and> (\<exists>v. field ''Close''
             (str ''Symbol,Date,Time,Close'' @ [nl] @ str ''AAPL.US,2024-01-02,16:00:00,0'')
           = Some v \<and> v \<noteq> [] \<and> Finite 0 = parseFloat v)"
  using close_is_a_number [OF parse_close_zero] by simp

text \<open>
  The claim as stated fails on a negative price: the parser succeeds and the close is
  \<open>-5\<close>, which is \<open>\<le> 0\<close>.
\<close>

theorem close_is_a_number_counterexample:
  "parseQuote (str ''Symbol,Date,Time,Close'' @ [nl] @ str ''AAPL.US,2024-01-02,16:00:00,-5'')
     = Inr \<lparr>Quote.symbol = str ''AAPL.US'', date = str ''2024-01-02'',
             time = str ''16:00:00'', close = Finite (- 5)\<rparr>
   \<and> js_le (Finite (- 5)) (Finite 0)"
  by (simp add: eval_parse to_double_minus_5)

section \<open>The parser: valid inputs and the lines that count\<close>

lemma to_double_not_NaN: "to_double q \<noteq> NaN"
  by (simp add: to_double_def Let_def)

lemma parse_success:
  assumes "2 \<le> length (linesOf text)"
    and "list_all (\<lambda>n. str n \<in> set (headerCells text))
           [''Symbol'', ''Date'', ''Time'', ''Close'']"
    and "field ''Symbol'' text = Some sv" "sv \<noteq> []" "sv \<noteq> str ''N/A''"
    and "field ''Date'' text = Some dv" "dv \<noteq> []"
    and "field ''Time'' text = Some tv" "tv \<noteq> []"
    and "field ''Close'' text = Some cv" "cv \<noteq> []" "cv \<noteq> str ''N/A''"
    and "parseFloat cv \<noteq> NaN"
  shows "parseQuote text =
           Inr \<lparr>Quote.symbol = sv, date = dv, time = tv, close = parseFloat cv\<rparr>"
  using assms two_lines_not_empty[OF assms(1)]
  by (simp add: parseQuote_unfold indexOf_absent falsy_iff isNaN_iff)

lemma parse_example:
  "parseQuote (str ''Symbol,Date,Time,Close'' @ [nl] @ str ''AAPL.US,2024-01-02,16:00:00,185.64'')
     = Inr \<lparr>Quote.symbol = str ''AAPL.US'', date = str ''2024-01-02'',
             time = str ''16:00:00'', close = to_double (18564 / 100)\<rparr>"
  by (simp add: eval_parse)

lemma comma_ne_nl: "comma \<noteq> nl"
  by (simp add: comma_def nl_def)

lemma splitOn_joinCells:
  "cs \<noteq> [] \<Longrightarrow> list_all (\<lambda>c. comma \<notin> set c) cs \<Longrightarrow> splitOn comma (joinCells cs) = cs"
  by (induction cs rule: joinCells.induct) (simp_all add: splitOn_no_sep splitOn_append)

lemma set_joinCells: "set (joinCells cs) \<subseteq> insert comma (\<Union> (set ` set cs))"
  by (induction cs rule: joinCells.induct) auto

lemma hd_joinCells:
  "2 \<le> length cs \<Longrightarrow>
   joinCells cs \<noteq> [] \<and> hd (joinCells cs) = (if hd cs = [] then comma else hd (hd cs))"
  by (induction cs rule: joinCells.induct) (auto simp: hd_append)

text \<open>
  A header line and a data line with a line break between them: the trimming of the
  whole text only takes the white space at the end of the data line away.
\<close>

lemma linesOf_raw:
  assumes h: "h \<noteq> []" "\<not> isWhiteSpace (hd h)" "nl \<notin> set h"
    and d: "nl \<notin> set d" "\<not> blank d"
  shows "linesOf (h @ [nl] @ d) = [h, trimEnd d]"
proof -
  from d(1) have n1': "nl \<notin> set (trimEnd d)" using set_trimEnd by blast
  have "trimStart (h @ [nl] @ d) = h @ [nl] @ d"
    using h by (intro trimStart_id) simp_all
  moreover have "trimEnd ((h @ [nl]) @ d) = (h @ [nl]) @ trimEnd d"
    using d(2) by (rule trimEnd_append_not_blank)
  ultimately have "trim (h @ [nl] @ d) = h @ nl # trimEnd d"
    by (simp add: trim_def)
  then show ?thesis
    using h(3) n1' by (simp add: linesOf_def splitOn_append splitOn_no_sep)
qed

lemma parse_two_lines:
  assumes cells: "list_all (\<lambda>c. comma \<notin> set c \<and> nl \<notin> set c) (hs @ ds)"
    and first: "trimStart (hd hs) = hd hs"
    and hdr: "list_all (\<lambda>n. str n \<in> set hs) [''Symbol'', ''Date'', ''Time'', ''Close'']"
    and sym: "elemAt (map trim ds) (indexOf hs (str ''Symbol'')) = Some sv"
      "sv \<noteq> []" "sv \<noteq> str ''N/A''"
    and dat: "elemAt (map trim ds) (indexOf hs (str ''Date'')) = Some dv" "dv \<noteq> []"
    and tim: "elemAt (map trim ds) (indexOf hs (str ''Time'')) = Some tv" "tv \<noteq> []"
    and clo: "elemAt (map trim ds) (indexOf hs (str ''Close'')) = Some cv"
      "cv \<noteq> []" "cv \<noteq> str ''N/A''"
    and num: "parseFloat cv \<noteq> NaN"
  shows "parseQuote (joinCells hs @ [nl] @ joinCells ds) =
           Inr \<lparr>Quote.symbol = sv, date = dv, time = tv, close = parseFloat cv\<rparr>"
proof -
  let ?h = "joinCells hs" and ?d = "joinCells ds"
  let ?text = "?h @ [nl] @ ?d"
  from hdr have "str ''Symbol'' \<in> set hs" "str ''Date'' \<in> set hs" by simp_all
  moreover have "str ''Symbol'' \<noteq> str ''Date''" by (simp add: str_def)
  ultimately have len: "2 \<le> length hs"
    by (cases hs; cases "tl hs") auto
  then have hsne: "hs \<noteq> []" by auto
  from sym(1) have dsne: "ds \<noteq> []" by (auto simp: elemAt_def split: if_splits)
  from cells have hc: "list_all (\<lambda>c. comma \<notin> set c) hs"
    and dcl: "list_all (\<lambda>c. comma \<notin> set c) ds"
    and hn: "list_all (\<lambda>c. nl \<notin> set c) hs" and dn: "list_all (\<lambda>c. nl \<notin> set c) ds"
    by (simp_all add: list_all_iff)
  have nh: "nl \<notin> set ?h"
    using set_joinCells[of hs] hn comma_ne_nl by (auto simp: list_all_iff)
  have nd: "nl \<notin> set ?d"
    using set_joinCells[of ds] dn comma_ne_nl by (auto simp: list_all_iff)
  have h1: "?h \<noteq> []" using hd_joinCells[OF len] by simp
  have h2: "\<not> isWhiteSpace (hd ?h)"
  proof (cases "hd hs = []")
    case True
    with hd_joinCells[OF len] show ?thesis using not_ws_comma by simp
  next
    case False
    then have "trimStart (hd hs) \<noteq> []" using first by simp
    then have "\<not> isWhiteSpace (hd (trimStart (hd hs)))" by (rule trimStart_not_blank)
    with first False hd_joinCells[OF len] show ?thesis by simp
  qed
  have sp: "splitOn comma ?d = ds" using dsne dcl by (rule splitOn_joinCells)
  have nb: "\<not> blank ?d"
  proof
    assume "blank ?d"
    then have "trimEnd ?d = []" by (simp add: trimEnd_eq_Nil)
    then have "map trim (splitOn comma ?d) = [[]]"
      using map_trim_splitOn_trimEnd[of ?d] by (simp add: trim_Nil)
    with sp have "map trim ds = [[]]" by simp
    with sym(1,2) show False by (auto simp: elemAt_def split: if_splits)
  qed
  have ls: "linesOf ?text = [?h, trimEnd ?d]"
    using h1 h2 nh nd nb by (rule linesOf_raw)
  have hcells: "headerCells ?text = hs"
    using ls hsne hc by (simp add: headerCells_def splitOn_joinCells)
  have dcells: "map trim (dataCells ?text) = map trim ds"
    using ls sp by (simp add: dataCells_def map_trim_splitOn_trimEnd)
  have f: "field name ?text = elemAt (map trim ds) (indexOf hs (str name))" for name
    unfolding field_def elemAt_map hcells dcells ..
  show ?thesis
  proof (rule parse_success)
    show "2 \<le> length (linesOf ?text)" using ls by simp
    show "list_all (\<lambda>n. str n \<in> set (headerCells ?text))
            [''Symbol'', ''Date'', ''Time'', ''Close'']"
      using hdr hcells by simp
  qed (use f sym dat tim clo num in simp_all)
qed

text \<open>
  Claim C6. For every input of two lines, a header line of cells \<open>hs\<close> and a data
  line of cells \<open>ds\<close> (no cell with a comma or a line break in it, the first header cell
  not starting with white space), with a complete header, whose cells under the Symbol,
  Date, Time and Close columns are present and not empty after trimming, Symbol and
  Close not being \<open>N/A\<close>, and whose Close cell has a numeric value (\<open>parseFloat\<close> does
  not give NaN): parsing succeeds with the trimmed cells and with the close that
  \<open>parseFloat\<close> reads. That value is the one of the leading numeric prefix: digits, a
  point and digits are read as their decimal value, rounded to a double, whatever
  follows that cannot continue the number. The example body yields the example quote,
  its close the double nearest to 185.64, which is 1632906708642693 / 2^43.
\<close>

theorem valid_input_parses:
  "(list_all (\<lambda>c. comma \<notin> set c \<and> nl \<notin> set c) (hs @ ds)
      \<and> trimStart (hd hs) = hd hs
      \<and> list_all (\<lambda>n. str n \<in> set hs) [''Symbol'', ''Date'', ''Time'', ''Close'']
      \<and> elemAt (map trim ds) (indexOf hs (str ''Symbol'')) = Some sv
      \<and> sv \<noteq> [] \<and> sv \<noteq> str ''N/A''
      \<and> elemAt (map trim ds) (indexOf hs (str ''Date'')) = Some dv \<and> dv \<noteq> []
      \<and> elemAt (map trim ds) (indexOf hs (str ''Time'')) = Some tv \<and> tv \<noteq> []
      \<and> elemAt (map trim ds) (indexOf hs (str ''Close'')) = Some cv
      \<and> cv \<noteq> [] \<and> cv \<noteq> str ''N/A''
      \<and> parseFloat cv \<noteq> NaN
      \<longrightarrow> parseQuote (joinCells hs @ [nl] @ joinCells ds) =
            Inr \<lparr>Quote.symbol = sv, date = dv, time = tv, close = parseFloat cv\<rparr>)
   \<and> (ip \<noteq> [] \<and> list_all isDigit ip \<and> list_all isDigit fp
        \<and> (rest = [] \<or> (\<not> isDigit (hd rest) \<and> hd rest \<noteq> 101 \<and> hd rest \<noteq> 69))
      \<longrightarrow> parseFloat (ip @ 46 # fp @ rest) =
            to_double (of_nat (digitsValue ip) + of_nat (digitsValue fp) / 10 ^ length fp))
   \<and> parseQuote
        (str ''Symbol,Date,Time,Close'' @ [nl] @ str ''AAPL.US,2024-01-02,16:00:00,185.64'')
      = Inr \<lparr>Quote.symbol = str ''AAPL.US'', date = str ''2024-01-02'',
              time = str ''16:00:00'', close = to_double (18564 / 100)\<rparr>
   \<and> to_double (18564 / 100) = Finite (1632906708642693 / 8796093022208)"
proof (intro conjI impI)
  assume "list_all (\<lambda>c. comma \<notin> set c \<and> nl \<notin> set c) (hs @ ds)
      \<and> trimStart (hd hs) = hd hs
      \<and> list_all (\<lambda>n. str n \<in> set hs) [''Symbol'', ''Date'', ''Time'', ''Close'']
      \<and> elemAt (map trim ds) (indexOf hs (str ''Symbol'')) = Some sv
      \<and> sv \<noteq> [] \<and> sv \<noteq> str ''N/A''
      \<and> elemAt (map trim ds) (indexOf hs (str ''Date'')) = Some dv \<and> dv \<noteq> []
      \<and> elemAt (map trim ds) (indexOf hs (str ''Time'')) = Some tv \<and> tv \<noteq> []
      \<and> elemAt (map trim ds) (indexOf hs (str ''Close'')) = Some cv
      \<and> cv \<noteq> [] \<and> cv \<noteq> str ''N/A''
      \<and> parseFloat cv \<noteq> NaN"
  then show "parseQuote (joinCells hs @ [nl] @ joinCells ds) =
      Inr \<lparr>Quote.symbol = sv, date = dv, time = tv, close = parseFloat cv\<rparr>"
    by (intro parse_two_lines) blast+
next
  assume "ip \<noteq> [] \<and> list_all isDigit ip \<and> list_all isDigit fp
        \<and> (rest = [] \<or> (\<not> isDigit (hd rest) \<and> hd rest \<noteq> 101 \<and> hd rest \<noteq> 69))"
  then show "parseFloat (ip @ 46 # fp @ rest) =
      to_double (of_nat (digitsValue ip) + of_nat (digitsValue fp) / 10 ^ length fp)"
    by (intro parseFloat_prefix) simp_all
next
  show "parseQuote
        (str ''Symbol,Date,Time,Close'' @ [nl] @ str ''AAPL.US,2024-01-02,16:00:00,185.64'')
      = Inr \<lparr>Quote.symbol = str ''AAPL.US'', date = str ''2024-01-02'',
              time = str ''16:00:00'', close = to_double (18564 / 100)\<rparr>"
    by (rule parse_example)
next
  show "to_double (18564 / 100) = Finite (1632906708642693 / 8796093022208)"
    by (rule to_double_example)
qed

theorem valid_input_parses_witness:
  "parseQuote (str ''Symbol,Date,Time,Close'' @ [nl]
               @ str '' AAPL.US , 2024-01-02 , 16:00:00 , 185.64 USD'')
     = Inr \<lparr>Quote.symbol = str ''AAPL.US'', date = str ''2024-01-02'',
             time = str ''16:00:00'', close = to_double (18564 / 100)\<rparr>"
proof -
  let ?hs = "[str ''Symbol'', str ''Date'', str ''Time'', str ''Close'']"
  let ?ds = "[str '' AAPL.US '', str '' 2024-01-02 '', str '' 16:00:00 '', str '' 185.64 USD'']"
  let ?cv = "str ''185'' @ 46 # str ''64'' @ str '' USD''"
  have digits: "str ''185'' \<noteq> [] \<and> list_all isDigit (str ''185'') \<and> list_all isDigit (str ''64'')
        \<and> (str '' USD'' = [] \<or> (\<not> isDigit (hd (str '' USD'')) \<and> hd (str '' USD'') \<noteq> 101
              \<and> hd (str '' USD'') \<noteq> 69))"
    by (simp add: str_def isDigit_def)
  have pf: "parseFloat ?cv = to_double (18564 / 100)"
    using valid_input_parses [of _ _ _ _ _ _ "str ''185''" "str ''64''" "str '' USD''"] digits
    by (simp add: digitsValue_def str_def)
  have cells: "map trim ?ds = [str ''AAPL.US'', str ''2024-01-02'', str ''16:00:00'', ?cv]"
    by (simp add: eval_string)
  have hyps: "list_all (\<lambda>c. comma \<notin> set c \<and> nl \<notin> set c) (?hs @ ?ds)
      \<and> trimStart (hd ?hs) = hd ?hs
      \<and> list_all (\<lambda>n. str n \<in> set ?hs) [''Symbol'', ''Date'', ''Time'', ''Close'']
      \<and> elemAt (map trim ?ds) (indexOf ?hs (str ''Symbol'')) = Some (str ''AAPL.US'')
      \<and> str ''AAPL.US'' \<noteq> [] \<and> str ''AAPL.US'' \<noteq> str ''N/A''
      \<and> elemAt (map trim ?ds) (indexOf ?hs (str ''Date'')) = Some (str ''2024-01-02'')
      \<and> str ''2024-01-02'' \<noteq> []
      \<and> elemAt (map trim ?ds) (indexOf ?hs (str ''Time'')) = Some (str ''16:00:00'')
      \<and> str ''16:00:00'' \<noteq> []
      \<and> elemAt (map trim ?ds) (indexOf ?hs (str ''Close'')) = Some ?cv
      \<and> ?cv \<noteq> [] \<and> ?cv \<noteq> str ''N/A''
      \<and> parseFloat ?cv \<noteq> NaN"
    unfolding pf cells
    by (simp add: str_def comma_def nl_def elemAt_def trimStart_def isWhiteSpace_def
          whiteSpaceUnits_def to_double_not_NaN)
  have joined: "joinCells ?hs @ [nl] @ joinCells ?ds =
      str ''Symbol,Date,Time,Close'' @ [nl]
        @ str '' AAPL.US , 2024-01-02 , 16:00:00 , 185.64 USD''"
    by (simp add: str_def comma_def)
  from valid_input_parses
         [of ?hs ?ds "str ''AAPL.US''" "str ''2024-01-02''" "str ''16:00:00''" ?cv] hyps
  have "parseQuote (joinCells ?hs @ [nl] @ joinCells ?ds) =
      Inr \<lparr>Quote.symbol = str ''AAPL.US'', date = str ''2024-01-02'', time = str ''16:00:00'',
            close = parseFloat ?cv\<rparr>"
    by blast
  then show ?thesis unfolding pf joined .
qed

lemma trim_idem: "trim (trim s) = trim s"
proof (cases "trim s = []")
  case True
  then show ?thesis by (simp add: trim_Nil)
next
  case False
  then have "trimStart (trim s) = trim s"
    by (intro trimStart_id hd_trim_not_ws)
  moreover have "trimEnd (trim s) = trim s"
    by (simp add: trim_def trimEnd_def)
  ultimately show ?thesis by (simp add: trim_def[of "trim s"])
qed

lemma parseQuote_trim: "parseQuote (trim text) = parseQuote text"
proof -
  have l: "linesOf (trim text) = linesOf text" by (simp add: linesOf_def trim_idem)
  have h: "headerCells (trim text) = headerCells text" by (simp add: headerCells_def l)
  have d: "dataCells (trim text) = dataCells text" by (simp add: dataCells_def l)
  have f: "field name (trim text) = field name text" for name by (simp add: field_def h d)
  show ?thesis
    by (subst (1 2) parseQuote_unfold) (simp only: trim_idem l h f)
qed

text \<open>
  With two or more lines, the result is a function of the header cells and of the
  trimmed cells of the data row.
\<close>

lemma parseQuote_depends:
  assumes "2 \<le> length (linesOf a)" "2 \<le> length (linesOf b)"
    and "headerCells a = headerCells b"
    and "map trim (dataCells a) = map trim (dataCells b)"
  shows "parseQuote a = parseQuote b"
proof -
  have f: "field name a = field name b" for name
    using assms(3,4) by (simp add: field_def elemAt_map)
  from assms(1,2) have "trim a \<noteq> []" "trim b \<noteq> []"
    by (simp_all add: two_lines_not_empty)
  with assms(1,2,3) show ?thesis
    by (simp add: parseQuote_unfold f)
qed

text \<open>
  The first two lines of a trimmed text, taken alone: trimming them again only takes
  the white space at the end of the second line away.
\<close>

lemma linesOf_two_lines:
  assumes ls: "linesOf text = l0 # l1 # rest" and nb: "\<not> blank l1"
  shows "linesOf (l0 @ [nl] @ l1) = [l0, trimEnd l1]"
proof -
  from ls obtain s' where t: "trim text = l0 @ nl # s'"
    unfolding linesOf_def using splitOn_two by blast
  then have "trim text \<noteq> []" by simp
  then have "\<not> isWhiteSpace (hd (trim text))" by (rule hd_trim_not_ws)
  with t have l0: "l0 \<noteq> []" "\<not> isWhiteSpace (hd l0)"
    using ws_nl by (cases l0; simp)+
  have n0: "nl \<notin> set l0" and n1: "nl \<notin> set l1"
    using ls splitOn_no_sep_in_pieces[of _ nl "trim text"] by (simp_all add: linesOf_def)
  from l0 n0 n1 nb show ?thesis by (rule linesOf_raw)
qed

text \<open>
  Claim C8, as amended. For every response text whose trimmed form has two or more
  lines, the second of them not blank, parsing the text gives the same result as
  parsing its first two lines alone; two texts of two or more lines each that agree on
  their first two lines parse alike, so whatever follows is ignored; and the line breaks
  and white space around the text are ignored as well. (Lines are those of the trimmed
  text. When the second line is blank, the lines after it still decide between
  MalformedStructure and the later checks.)
\<close>

theorem first_two_lines:
  "(2 \<le> length (linesOf text) \<and> \<not> blank (linesOf text ! 1) \<longrightarrow>
      parseQuote (linesOf text ! 0 @ [nl] @ linesOf text ! 1) = parseQuote text)
   \<and> (2 \<le> length (linesOf a) \<and> 2 \<le> length (linesOf b)
        \<and> take 2 (linesOf a) = take 2 (linesOf b) \<longrightarrow> parseQuote a = parseQuote b)
   \<and> parseQuote (trim text) = parseQuote text"
proof (intro conjI impI)
  assume "2 \<le> length (linesOf text) \<and> \<not> blank (linesOf text ! 1)"
  then obtain l0 l1 rest where ls: "linesOf text = l0 # l1 # rest" and nb: "\<not> blank l1"
    by (cases "linesOf text"; cases "tl (linesOf text)") auto
  let ?t2 = "l0 @ [nl] @ l1"
  have ls2: "linesOf ?t2 = [l0, trimEnd l1]" using ls nb by (rule linesOf_two_lines)
  have "parseQuote ?t2 = parseQuote text"
  proof (rule parseQuote_depends)
    show "2 \<le> length (linesOf ?t2)" using ls2 by simp
    show "2 \<le> length (linesOf text)" using ls by simp
    show "headerCells ?t2 = headerCells text" using ls ls2 by (simp add: headerCells_def)
    show "map trim (dataCells ?t2) = map trim (dataCells text)"
      using ls ls2 by (simp add: dataCells_def map_trim_splitOn_trimEnd)
  qed
  with ls show "parseQuote (linesOf text ! 0 @ [nl] @ linesOf text ! 1) = parseQuote text"
    by simp
next
  assume h: "2 \<le> length (linesOf a) \<and> 2 \<le> length (linesOf b)
        \<and> take 2 (linesOf a) = take 2 (linesOf b)"
  then obtain a0 a1 ar where la: "linesOf a = a0 # a1 # ar"
    by (cases "linesOf a"; cases "tl (linesOf a)") auto
  from h obtain b0 b1 br where lb: "linesOf b = b0 # b1 # br"
    by (cases "linesOf b"; cases "tl (linesOf b)") auto
  from h la lb have eq: "a0 = b0" "a1 = b1" by (simp_all add: numeral_2_eq_2)
  show "parseQuote a = parseQuote b"
  proof (rule parseQuote_depends)
    show "2 \<le> length (linesOf a)" "2 \<le> length (linesOf b)" using h by simp_all
    show "headerCells a = headerCells b" using la lb eq by (simp add: headerCells_def)
    show "map trim (dataCells a) = map trim (dataCells b)"
      using la lb eq by (simp add: dataCells_def)
  qed
next
  show "parseQuote (trim text) = parseQuote text" by (rule parseQuote_trim)
qed

theorem first_two_lines_witness:
  "parseQuote (str ''Symbol,Date,Time,Close'' @ [nl] @ str ''AAPL.US,2024-01-02,16:00:00,185.64 '')
     = parseQuote (str ''Symbol,Date,Time,Close'' @ [nl]
                   @ str ''AAPL.US,2024-01-02,16:00:00,185.64 '' @ [nl]
                   @ str ''MSFT.US,2024-01-02,16:00:00,370.87'' @ [nl])
   \<and> parseQuote (str ''Symbol,Date,Time,Close'' @ [nl]
                   @ str ''AAPL.US,2024-01-02,16:00:00,185.64 '' @ [nl]
                   @ str ''MSFT.US,2024-01-02,16:00:00,370.87'' @ [nl])
     = parseQuote (str ''Symbol,Date,Time,Close'' @ [nl]
                   @ str ''AAPL.US,2024-01-02,16:00:00,185.64 '' @ [nl] @ str ''N/A'')"
proof -
  let ?h = "str ''Symbol,Date,Time,Close''"
  let ?d = "str ''AAPL.US,2024-01-02,16:00:00,185.64 ''"
  let ?a = "?h @ [nl] @ ?d @ [nl] @ str ''MSFT.US,2024-01-02,16:00:00,370.87'' @ [nl]"
  let ?b = "?h @ [nl] @ ?d @ [nl] @ str ''N/A''"
  have la: "linesOf ?a = [?h, ?d, str ''MSFT.US,2024-01-02,16:00:00,370.87'']"
    by (simp add: linesOf_def eval_string)
  have lb: "linesOf ?b = [?h, ?d, str ''N/A'']"
    by (simp add: linesOf_def eval_string)
  have nb: "\<not> blank ?d" by (simp add: blank_def eval_string)
  have 1: "2 \<le> length (linesOf ?a) \<and> \<not> blank (linesOf ?a ! 1)"
    unfolding la using nb by simp
  have 2: "2 \<le> length (linesOf ?a) \<and> 2 \<le> length (linesOf ?b)
        \<and> take 2 (linesOf ?a) = take 2 (linesOf ?b)"
    unfolding la lb by (simp add: numeral_2_eq_2)
  from first_two_lines [of ?a ?a ?b] 1 2
  have "parseQuote (linesOf ?a ! 0 @ [nl] @ linesOf ?a ! 1) = parseQuote ?a
        \<and> parseQuote ?a = parseQuote ?b"
    by blast
  then show ?thesis unfolding la by simp
qed

text \<open>
  The claim as stated fails on a blank second line: the first two lines of the text
  are the header and an empty line, which alone are a malformed body, while the whole
  text passes that check and fails on its symbol.
\<close>

theorem first_two_lines_counterexample:
  "take 2 (splitOn nl (str ''Symbol,Date,Time,Close'' @ [nl, nl]
                        @ str ''AAPL.US,2024-01-02,16:00:00,185.64''))
     = [str ''Symbol,Date,Time,Close'', []]
   \<and> parseQuote (str ''Symbol,Date,Time,Close'' @ [nl, nl]
                  @ str ''AAPL.US,2024-01-02,16:00:00,185.64'') = Inl InvalidSymbol
   \<and> parseQuote (str ''Symbol,Date,Time,Close'' @ [nl] @ []) = Inl MalformedStructure"
  by (simp add: eval_parse numeral_2_eq_2)

end
